theory Spec2Isabelle
  imports Complex_Main "HOL-Library.Multiset"
begin

section \<open>Endpoint health checker: data model\<close>

text \<open>
  The program is \<^verbatim>\<open>simple-endpoint-monitor-app-api/app.py\<close>. Its two functions are
  \<^verbatim>\<open>check_endpoint\<close> (one probe) and \<^verbatim>\<open>check_endpoints\<close> (the batch).

  Python strings are modelled as \<^typ>\<open>string\<close>, read as sequences of code points below
  256. Clock readings and durations are exact rationals (every finite double is one);
  the representation error of binary floating point is not modelled.
\<close>

text \<open>
  \<^verbatim>\<open>class EndpointResult(BaseModel): url: str; result: str; status: int | None; time: float | None\<close>
\<close>

record EndpointResult =
  url :: string
  result :: string
  status :: "int option"
  time :: "rat option"

text \<open>
  An exception instance, as far as the two \<^verbatim>\<open>except\<close> clauses of \<^verbatim>\<open>check_endpoint\<close>
  can tell instances apart. The string is \<^verbatim>\<open>e.__class__.__name__\<close>.
  \<^item> \<open>TimeoutExc\<close>: an instance of \<^verbatim>\<open>requests.exceptions.Timeout\<close>
    (\<^verbatim>\<open>ConnectTimeout\<close> and \<^verbatim>\<open>ReadTimeout\<close> are subclasses);
  \<^item> \<open>RequestExc\<close>: an instance of \<^verbatim>\<open>requests.exceptions.RequestException\<close> that is
    not a \<^verbatim>\<open>Timeout\<close>;
  \<^item> \<open>OtherExc\<close>: any other exception.
\<close>

datatype py_exception =
    TimeoutExc string
  | RequestExc string
  | OtherExc string

text \<open>
  What the body of the \<^verbatim>\<open>try\<close> block meets. The network is outside the program, so
  the behaviour of \<^verbatim>\<open>requests.get(url, timeout=timeout)\<close> is an input of the model:
  either a response arrives, with the clock reading \<open>start\<close> taken before the call, the
  status code of the response and the clock reading \<open>now\<close> taken after it, or the call
  raises.
\<close>

datatype get_outcome =
    Responded rat int rat
  | Raised py_exception

section \<open>The Checker\<close>

text \<open>
  \<^verbatim>\<open>round(x, 2)\<close> on a float rounds the exact value of \<open>x\<close> to the nearest multiple
  of 1/100, a tie going to the even multiple.
\<close>

definition round2 :: "rat \<Rightarrow> rat" where
  "round2 x =
     (let y = x * 100; f = \<lfloor>y\<rfloor>; d = y - of_int f
      in of_int (if d < 1 / 2 then f
                 else if 1 / 2 < d then f + 1
                 else if even f then f else f + 1) / 100)"

text \<open>
  \<^verbatim>\<open>
  def check_endpoint(url: str, timeout: int):
      try:
          start = time.time()
          response = requests.get(url, timeout=timeout)
          elapsed = round(time.time() - start, 2)
          return {"url": url, "status": response.status_code, "time": elapsed,
                  "result": "UP" if elapsed <= timeout else "TIMEOUT"}
      except requests.exceptions.Timeout:
          return {"url": url, "status": None, "time": None, "result": "TIMEOUT"}
      except requests.exceptions.RequestException as e:
          return {"url": url, "status": None, "time": None,
                  "result": f"DOWN ({e.__class__.__name__})"}
  \<close>
  There is no third \<^verbatim>\<open>except\<close> clause: an exception of another class leaves the
  function, which is the \<open>Inl\<close> result.
\<close>

definition check_endpoint :: "string \<Rightarrow> int \<Rightarrow> get_outcome \<Rightarrow> py_exception + EndpointResult" where
  "check_endpoint u timeout oc =
     (case oc of
        Responded start code now \<Rightarrow>
          (let elapsed = round2 (now - start)
           in Inr \<lparr>url = u,
                   result = (if elapsed \<le> of_int timeout then ''UP'' else ''TIMEOUT''),
                   status = Some code,
                   time = Some elapsed\<rparr>)
      | Raised (TimeoutExc n) \<Rightarrow>
          Inr \<lparr>url = u, result = ''TIMEOUT'', status = None, time = None\<rparr>
      | Raised (RequestExc n) \<Rightarrow>
          Inr \<lparr>url = u, result = ''DOWN ('' @ n @ '')'', status = None, time = None\<rparr>
      | Raised (OtherExc n) \<Rightarrow> Inl (OtherExc n))"

section \<open>Configuration\<close>

text \<open>
  \<^verbatim>\<open>int(s)\<close> for a string \<open>s\<close>, base 10: leading white space, an optional sign, decimal
  digits in which single underscores may separate digits, trailing white space; anything
  else raises \<^verbatim>\<open>ValueError\<close>. The white space \<^verbatim>\<open>int\<close> skips is TAB, LF, VT, FF, CR, SPACE
  and, of the code points from 127 to 255, NEL and NBSP.

  The interpreter also limits the number of digits: with the setting \<open>max_str_digits\<close>
  (\<^verbatim>\<open>sys.get_int_max_str_digits()\<close>, 4300 unless changed, 0 for no limit), a string with
  more than 640 digits and more than \<open>max_str_digits\<close> digits raises \<^verbatim>\<open>ValueError\<close>.
  Underscores do not count, leading zeros do. The program does not set the limit, so
  it is an input of the model.
\<close>

definition int_space :: "char \<Rightarrow> bool" where
  "int_space c = (c \<in> set [CHR 0x09, CHR 0x0A, CHR 0x0B, CHR 0x0C, CHR 0x0D, CHR 0x20,
                             CHR 0x85, CHR 0xA0])"

definition is_digit :: "char \<Rightarrow> bool" where
  "is_digit c = (c \<in> set ''0123456789'')"

definition digit_or_underscore :: "char \<Rightarrow> bool" where
  "digit_or_underscore c = (is_digit c \<or> c = CHR ''_'')"

fun no_double_underscore :: "string \<Rightarrow> bool" where
  "no_double_underscore (a # b # cs) =
     (\<not> (a = CHR ''_'' \<and> b = CHR ''_'') \<and> no_double_underscore (b # cs))"
| "no_double_underscore cs = True"

definition digits_ok :: "string \<Rightarrow> bool" where
  "digits_ok body =
     (body \<noteq> [] \<and> hd body \<noteq> CHR ''_'' \<and> last body \<noteq> CHR ''_'' \<and> no_double_underscore body)"

definition digits_value :: "string \<Rightarrow> int" where
  "digits_value body =
     foldl (\<lambda>acc c. acc * 10 + (of_char c - 48)) 0 (filter is_digit body)"

definition ValueError :: py_exception where
  "ValueError = OtherExc ''ValueError''"

definition too_many_digits :: "nat \<Rightarrow> nat \<Rightarrow> bool" where
  "too_many_digits max_str_digits n = (0 < max_str_digits \<and> 640 < n \<and> max_str_digits < n)"

definition py_int :: "nat \<Rightarrow> string \<Rightarrow> py_exception + int" where
  "py_int max_str_digits s =
     (let s1 = dropWhile int_space s;
          sign = (if take 1 s1 = ''-'' then - 1 else 1);
          s2 = (if take 1 s1 = ''-'' \<or> take 1 s1 = ''+'' then drop 1 s1 else s1);
          body = takeWhile digit_or_underscore s2;
          rest = dropWhile digit_or_underscore s2
      in if digits_ok body \<and> list_all int_space rest
            \<and> \<not> too_many_digits max_str_digits (length (filter is_digit body))
         then Inr (sign * digits_value body)
         else Inl ValueError)"

text \<open>
  \<^verbatim>\<open>
  TIMEOUT = int(os.getenv("TIMEOUT", 30))
  URL_FILE = os.getenv("URL_FILE", "endpoints.txt")
  MAX_WORKERS = int(os.getenv("MAX_WORKERS", 10))
  \<close>
  The environment (after \<^verbatim>\<open>load_dotenv()\<close>) is a map from names to strings. The default
  handed to \<^verbatim>\<open>os.getenv\<close> is already an integer, which \<^verbatim>\<open>int\<close> returns as it is. The
  three assignments run in this order, so the first failing one is the exception of the
  module.
\<close>

record config =
  TIMEOUT :: int
  URL_FILE :: string
  MAX_WORKERS :: int

definition int_getenv ::
  "nat \<Rightarrow> (string \<rightharpoonup> string) \<Rightarrow> string \<Rightarrow> int \<Rightarrow> py_exception + int" where
  "int_getenv max_str_digits env name dflt =
     (case env name of None \<Rightarrow> Inr dflt | Some s \<Rightarrow> py_int max_str_digits s)"

definition load_config :: "nat \<Rightarrow> (string \<rightharpoonup> string) \<Rightarrow> py_exception + config" where
  "load_config max_str_digits env =
     (case int_getenv max_str_digits env ''TIMEOUT'' 30 of
        Inl e \<Rightarrow> Inl e
      | Inr t \<Rightarrow>
          (let f = (case env ''URL_FILE'' of None \<Rightarrow> ''endpoints.txt'' | Some s \<Rightarrow> s)
           in case int_getenv max_str_digits env ''MAX_WORKERS'' 10 of
                Inl e \<Rightarrow> Inl e
              | Inr w \<Rightarrow> Inr \<lparr>TIMEOUT = t, URL_FILE = f, MAX_WORKERS = w\<rparr>))"

section \<open>The Dispatcher\<close>

text \<open>
  The state of a path of the file system, as \<^verbatim>\<open>check_endpoints\<close> sees it:
  \<^verbatim>\<open>os.path.exists\<close> is false (\<open>Missing\<close>); the path exists and \<^verbatim>\<open>open\<close> or the
  reading raises (\<open>Unreadable\<close>, a directory for instance); or the file is read, and
  iterating over it gives its lines (\<open>Lines\<close>).
\<close>

datatype url_file =
    Missing
  | Unreadable py_exception
  | Lines "string list"

text \<open>
  \<^verbatim>\<open>str.strip()\<close> removes the white space of \<^verbatim>\<open>str.isspace\<close> at both ends: below code
  point 256 that is TAB to CR, FS to US, SPACE, NEL and NBSP.
\<close>

definition isspace :: "char \<Rightarrow> bool" where
  "isspace c = (c \<in> set [CHR 0x09, CHR 0x0A, CHR 0x0B, CHR 0x0C, CHR 0x0D,
                           CHR 0x1C, CHR 0x1D, CHR 0x1E, CHR 0x1F, CHR 0x20,
                           CHR 0x85, CHR 0xA0])"

definition strip :: "string \<Rightarrow> string" where
  "strip s = rev (dropWhile isspace (rev (dropWhile isspace s)))"

definition startswith :: "string \<Rightarrow> string \<Rightarrow> bool" where
  "startswith s p = (take (length p) s = p)"

text \<open>
  \<^verbatim>\<open>
  urls = [line.strip() for line in f
          if line.strip() and not line.strip().startswith("#")]
  \<close>
\<close>

definition read_urls :: "string list \<Rightarrow> string list" where
  "read_urls ls =
     map strip (filter (\<lambda>line. strip line \<noteq> [] \<and> \<not> startswith (strip line) ''#'') ls)"

text \<open>
  \<^verbatim>\<open>as_completed(future_to_url)\<close> yields every future of the dictionary once, in the
  order in which the futures complete. That order is decided by the network and the
  thread scheduler, so it is an input of the model: \<open>sched\<close> says, at each step, which of
  the futures still pending completes next (its position among them, taken modulo their
  number; position 0 once \<open>sched\<close> is used up). Every \<open>sched\<close> gives one completion order
  and every completion order comes from some \<open>sched\<close>.
\<close>

function as_completed :: "nat list \<Rightarrow> 'a list \<Rightarrow> 'a list" where
  "as_completed sched [] = []"
| "as_completed sched (p # ps) =
     (let k = (case sched of [] \<Rightarrow> 0 | s # _ \<Rightarrow> s mod length (p # ps))
      in (p # ps) ! k # as_completed (tl sched) (take k (p # ps) @ drop (Suc k) (p # ps)))"
  by pat_completeness auto
termination
  by (relation "measure (\<lambda>(sched, pending). length pending)") (auto split: list.splits)

text \<open>
  \<^verbatim>\<open>
  for future in as_completed(future_to_url):
      results.append(future.result())
  \<close>
  A future holds what its call of \<^verbatim>\<open>check_endpoint\<close> returned or raised;
  \<^verbatim>\<open>future.result()\<close> returns the one and raises the other again, which ends the loop.
\<close>

fun collect_results ::
  "(py_exception + EndpointResult) list \<Rightarrow> EndpointResult list \<Rightarrow> py_exception + EndpointResult list" where
  "collect_results [] results = Inr results"
| "collect_results (Inl e # futures) results = Inl e"
| "collect_results (Inr r # futures) results = collect_results futures (results @ [r])"

text \<open>
  \<^verbatim>\<open>
  def check_endpoints():
      if not os.path.exists(URL_FILE):
          return [{"url": "N/A", "result": "ERROR: URL file not found", "status": None, "time": None}]
      with open(URL_FILE, "r") as f:
          urls = [...]
      results = []
      with ThreadPoolExecutor(max_workers=MAX_WORKERS) as executor:
          future_to_url = {executor.submit(check_endpoint, url, TIMEOUT): url for url in urls}
          for future in as_completed(future_to_url):
              results.append(future.result())
      return results
  \<close>
  The inputs of the model are the configuration, the file system \<open>fs\<close>, the network
  \<open>net\<close> (\<open>net i u\<close> is what the request of the \<open>i\<close>-th submitted call, for URL \<open>u\<close>,
  meets) and the completion order \<open>sched\<close>. The result is a pair: the URLs for which
  \<^verbatim>\<open>check_endpoint\<close> was submitted, in submission order, and what the function returns
  or raises. \<^verbatim>\<open>ThreadPoolExecutor\<close> raises \<^verbatim>\<open>ValueError\<close> when \<^verbatim>\<open>max_workers\<close> is not
  positive. Leaving the \<^verbatim>\<open>with\<close> block waits for every submitted call, also when
  \<^verbatim>\<open>future.result()\<close> raised, so every submitted call runs. The threads themselves are
  not modelled: the calls share no state, so each future's content depends on its own
  URL and request only.
\<close>

definition check_endpoints ::
  "config \<Rightarrow> (string \<Rightarrow> url_file) \<Rightarrow> (nat \<Rightarrow> string \<Rightarrow> get_outcome) \<Rightarrow> nat list
     \<Rightarrow> string list \<times> (py_exception + EndpointResult list)" where
  "check_endpoints cfg fs net sched =
     (case fs (URL_FILE cfg) of
        Missing \<Rightarrow>
          ([], Inr [\<lparr>url = ''N/A'', result = ''ERROR: URL file not found'',
                     status = None, time = None\<rparr>])
      | Unreadable e \<Rightarrow> ([], Inl e)
      | Lines ls \<Rightarrow>
          (let urls = read_urls ls
           in if MAX_WORKERS cfg \<le> 0 then ([], Inl ValueError)
              else
                (let futures = map (\<lambda>(i, u). check_endpoint u (TIMEOUT cfg) (net i u))
                                   (enumerate 0 urls)
                 in (urls, collect_results (as_completed sched futures) []))))"

section \<open>Notions used to state the results\<close>

text \<open>
  \<^verbatim>\<open>isinstance(e, requests.exceptions.RequestException)\<close>: the exceptions that one of the
  two \<^verbatim>\<open>except\<close> clauses of \<^verbatim>\<open>check_endpoint\<close> catches.
\<close>

fun is_request_exception :: "py_exception \<Rightarrow> bool" where
  "is_request_exception (TimeoutExc n) = True"
| "is_request_exception (RequestExc n) = True"
| "is_request_exception (OtherExc n) = False"

text \<open>A request is \<open>handled\<close> when it is answered or fails with such an exception.\<close>

fun handled :: "get_outcome \<Rightarrow> bool" where
  "handled (Responded start code now) = True"
| "handled (Raised e) = is_request_exception e"

text \<open>The characters that can occur in a string that \<^verbatim>\<open>int\<close> accepts.\<close>

definition int_char :: "char \<Rightarrow> bool" where
  "int_char c = (is_digit c \<or> c = CHR ''_'' \<or> c = CHR ''+'' \<or> c = CHR ''-'' \<or> int_space c)"

text \<open>
  The integer literals of the documentation of \<^verbatim>\<open>int\<close>, said without reference to the
  scan above: white space \<open>pre\<close>, a sign \<open>sg\<close> (none, \<open>+\<close> or \<open>-\<close>), one or more
  non-empty groups of decimal digits joined by single underscores, white space \<open>post\<close>;
  the digits, all groups together, are within the interpreter's limit. The value of a
  literal is the positional value of its digits, negated under the sign \<open>-\<close>.
\<close>

fun join_underscore :: "string list \<Rightarrow> string" where
  "join_underscore [] = []"
| "join_underscore [g] = g"
| "join_underscore (g # h # gs) = g @ ''_'' @ join_underscore (h # gs)"

definition int_literal :: "string \<Rightarrow> string \<Rightarrow> string list \<Rightarrow> string \<Rightarrow> string" where
  "int_literal pre sg groups post = pre @ sg @ join_underscore groups @ post"

definition literal_ok :: "nat \<Rightarrow> string \<Rightarrow> string \<Rightarrow> string list \<Rightarrow> string \<Rightarrow> bool" where
  "literal_ok max_str_digits pre sg groups post =
     (list_all int_space pre \<and> list_all int_space post
      \<and> (sg = [] \<or> sg = ''+'' \<or> sg = ''-'')
      \<and> groups \<noteq> [] \<and> list_all (\<lambda>g. g \<noteq> [] \<and> list_all is_digit g) groups
      \<and> (max_str_digits = 0 \<or> length (concat groups) \<le> max 640 max_str_digits))"

fun dec_value :: "string \<Rightarrow> int" where
  "dec_value [] = 0"
| "dec_value (d # ds) = (of_char d - 48) * 10 ^ length ds + dec_value ds"

definition literal_value :: "string \<Rightarrow> string list \<Rightarrow> int" where
  "literal_value sg groups =
     (if sg = ''-'' then - dec_value (concat groups) else dec_value (concat groups))"

text \<open>
  What a setting is read as: the default when the variable is not set, the value of
  the literal when it is set to an integer literal, and nothing otherwise.
\<close>

inductive reads_as :: "nat \<Rightarrow> string option \<Rightarrow> int \<Rightarrow> int \<Rightarrow> bool" where
  unset: "reads_as max_str_digits None dflt dflt"
| literal: "literal_ok max_str_digits pre sg groups post \<Longrightarrow>
     reads_as max_str_digits (Some (int_literal pre sg groups post)) dflt (literal_value sg groups)"

subsection \<open>A small fleet, for concrete runs\<close>

definition example_cfg :: config where
  "example_cfg = \<lparr>TIMEOUT = 2, URL_FILE = ''endpoints.txt'', MAX_WORKERS = 10\<rparr>"

definition example_fs :: "string \<Rightarrow> url_file" where
  "example_fs path =
     (if path = ''endpoints.txt''
      then Lines [''# fleet'', ''http://ok.example/  '', [], ''http://slow.example/'',
                  ''  http://bad.example/'']
      else if path = ''twice.txt''
      then Lines [''http://ok.example/'', ''http://down.example/'', ''http://ok.example/'']
      else if path = ''empty.txt''
      then Lines [''# nothing to check yet'', ''   '', []]
      else Missing)"

definition example_net :: "nat \<Rightarrow> string \<Rightarrow> get_outcome" where
  "example_net i u =
     (if u = ''http://ok.example/'' then Responded 100 200 (1001 / 10)
      else if u = ''http://slow.example/'' then Raised (TimeoutExc ''ReadTimeout'')
      else Raised (RequestExc ''ConnectionError''))"

text \<open>The same network, where the request for the third URL raises a \<^verbatim>\<open>ValueError\<close>.\<close>

definition faulty_net :: "nat \<Rightarrow> string \<Rightarrow> get_outcome" where
  "faulty_net i u =
     (if u = ''http://bad.example/'' then Raised (OtherExc ''ValueError'')
      else example_net i u)"

text \<open>
  Five environments: nothing set, both settings integer literals, a fractional timeout,
  a pool size that is no number, a timeout with two underscores in a row.
\<close>

definition unset_env :: "string \<rightharpoonup> string" where
  "unset_env name = None"

definition padded_env :: "string \<rightharpoonup> string" where
  "padded_env name =
     (if name = ''TIMEOUT'' then Some '' 1_5 ''
      else if name = ''MAX_WORKERS'' then Some ''+04''
      else None)"

definition fractional_env :: "string \<rightharpoonup> string" where
  "fractional_env name = (if name = ''TIMEOUT'' then Some ''2.5'' else None)"

definition wordy_env :: "string \<rightharpoonup> string" where
  "wordy_env name =
     (if name = ''TIMEOUT'' then Some '' 1_5 ''
      else if name = ''MAX_WORKERS'' then Some ''abc''
      else None)"

definition garbled_env :: "string \<rightharpoonup> string" where
  "garbled_env name = (if name = ''TIMEOUT'' then Some ''1__2'' else None)"

section \<open>Completion order and collection\<close>

lemma as_completed_Cons:
  "as_completed sched (p # ps) =
     (p # ps) ! pick # as_completed (tl sched) (take pick (p # ps) @ drop (Suc pick) (p # ps))"
  if "pick = (case sched of [] \<Rightarrow> 0 | s # _ \<Rightarrow> s mod length (p # ps))"
  using that by (simp add: Let_def)

text \<open>Whatever the completion order, every future is yielded exactly once.\<close>

lemma mset_as_completed: "mset (as_completed sched xs) = mset xs"
proof (induction sched xs rule: as_completed.induct)
  case (1 sched)
  show ?case by simp
next
  case (2 sched p ps)
  define k where "k = (case sched of [] \<Rightarrow> 0 | s # _ \<Rightarrow> s mod length (p # ps))"
  define rest where "rest = take k (p # ps) @ drop (Suc k) (p # ps)"
  have k: "k < length (p # ps)"
    by (simp add: k_def split: list.splits)
  have IH: "mset (as_completed (tl sched) rest) = mset rest"
    unfolding rest_def by (rule 2 [OF k_def])
  have step: "as_completed sched (p # ps) = (p # ps) ! k # as_completed (tl sched) rest"
    unfolding rest_def by (rule as_completed_Cons [OF k_def])
  have "mset (p # ps) = mset (take k (p # ps) @ (p # ps) ! k # drop (Suc k) (p # ps))"
    using id_take_nth_drop [OF k] by simp
  also have "\<dots> = add_mset ((p # ps) ! k) (mset rest)"
    by (simp add: rest_def)
  finally show ?case
    by (simp only: step IH mset.simps)
qed

lemma set_as_completed: "set (as_completed sched xs) = set xs"
  by (metis mset_as_completed set_mset_mset)

lemma length_as_completed: "length (as_completed sched xs) = length xs"
  by (metis mset_as_completed size_mset)

text \<open>Conversely, the model leaves no completion order out.\<close>

lemma every_order_scheduled: "mset ys = mset xs \<Longrightarrow> \<exists>sched. as_completed sched xs = ys"
proof (induction ys arbitrary: xs)
  case Nil
  then show ?case by simp
next
  case (Cons y ys)
  from Cons.prems have "y \<in> set xs"
    by (metis list.set_intros(1) set_mset_mset)
  then obtain k where k: "k < length xs" and y: "xs ! k = y"
    by (auto simp: in_set_conv_nth)
  define rest where "rest = take k xs @ drop (Suc k) xs"
  from k obtain p ps where xs: "xs = p # ps"
    by (cases xs) auto
  have "mset xs = add_mset y (mset rest)"
    using id_take_nth_drop [OF k] y
    by (metis rest_def mset.simps(2) mset_append union_mset_add_mset_right)
  with Cons.prems have "mset ys = mset rest"
    by simp
  from Cons.IH [OF this] obtain sched where sched: "as_completed sched rest = ys"
    by blast
  have "k = (case k # sched of [] \<Rightarrow> 0 | s # _ \<Rightarrow> s mod length (p # ps))"
    using k xs by simp
  from as_completed_Cons [OF this] have "as_completed (k # sched) xs = y # ys"
    using y sched by (simp add: xs rest_def)
  then show ?case ..
qed

text \<open>
  The collecting loop either re-raises the exception of the first failed future it
  meets, or every future holds a result and the results come out in the order met.
\<close>

lemma collect_results_cases:
  "(\<exists>e. Inl e \<in> set fs \<and> collect_results fs acc = Inl e) \<or>
   (\<exists>rs. fs = map Inr rs \<and> collect_results fs acc = Inr (acc @ rs))"
proof (induction fs acc rule: collect_results.induct)
  case (1 results)
  show ?case by simp
next
  case (2 e futures results)
  show ?case by simp
next
  case (3 r futures results)
  then show ?case
    by (auto simp: map_eq_Cons_conv)
qed

section \<open>The Checker, case by case\<close>

lemma check_endpoint_handled:
  "handled oc \<Longrightarrow> \<exists>r. check_endpoint u t oc = Inr r \<and> url r = u"
  by (cases oc rule: handled.cases)
     (auto simp: check_endpoint_def Let_def split: py_exception.splits)

lemma check_endpoint_url: "check_endpoint u t oc = Inr r \<Longrightarrow> url r = u"
  by (auto simp: check_endpoint_def Let_def split: get_outcome.splits py_exception.splits)

lemma check_endpoint_both_or_neither:
  "check_endpoint u t oc = Inr r \<Longrightarrow> (status r \<noteq> None) = (time r \<noteq> None)"
  by (auto simp: check_endpoint_def Let_def split: get_outcome.splits py_exception.splits)

section \<open>The Dispatcher on a readable file\<close>

lemma check_endpoints_Lines:
  assumes "fs (URL_FILE cfg) = Lines ls" and "1 \<le> MAX_WORKERS cfg"
  shows "check_endpoints cfg fs net sched =
           (read_urls ls,
            collect_results
              (as_completed sched
                 (map (\<lambda>(i, u). check_endpoint u (TIMEOUT cfg) (net i u))
                      (enumerate 0 (read_urls ls)))) [])"
  using assms by (simp add: check_endpoints_def Let_def)

text \<open>
  When no request escapes the Checker, the loop ends normally, and what it returns is
  a rearrangement of the futures' contents.
\<close>

lemma collect_all_handled:
  assumes "list_all (\<lambda>(i, u). handled (net i u)) ius"
  shows "\<exists>rs. collect_results
                 (as_completed sched (map (\<lambda>(i, u). check_endpoint u t (net i u)) ius)) [] = Inr rs
              \<and> mset (map Inr rs) = mset (map (\<lambda>(i, u). check_endpoint u t (net i u)) ius)"
proof -
  define futures where "futures = map (\<lambda>(i, u). check_endpoint u t (net i u)) ius"
  have no_Inl: "Inl e \<notin> set futures" for e
  proof
    assume "Inl e \<in> set futures"
    then obtain i u where "(i, u) \<in> set ius" and e: "check_endpoint u t (net i u) = Inl e"
      by (auto simp: futures_def)
    with assms have "handled (net i u)"
      by (auto simp: list_all_iff)
    from check_endpoint_handled [OF this] e show False
      by (metis sum.distinct(1))
  qed
  from collect_results_cases [of "as_completed sched futures" "[]"] no_Inl
  obtain rs where rs: "as_completed sched futures = map Inr rs"
    and res: "collect_results (as_completed sched futures) [] = Inr rs"
    by (auto simp: set_as_completed)
  from rs have "mset (map Inr rs) = mset futures"
    by (metis mset_as_completed)
  with res show ?thesis
    unfolding futures_def by blast
qed

lemma urls_of_futures:
  assumes "mset (map Inr rs) = mset (map (\<lambda>(i, u). check_endpoint u t (net i u)) (enumerate n urls))"
  shows "mset (map url rs) = mset urls"
proof -
  define url_of :: "py_exception + EndpointResult \<Rightarrow> string"
    where "url_of f = (case f of Inl e \<Rightarrow> [] | Inr r \<Rightarrow> url r)" for f
  define futures where "futures = map (\<lambda>(i, u). check_endpoint u t (net i u)) (enumerate n urls)"
  have fut: "\<exists>r. f = Inr r" if "f \<in> set futures" for f
    using that assms unfolding futures_def by (metis ex_map_conv mset_eq_setD)
  have each: "url_of (check_endpoint u t (net i u)) = u" if "(i, u) \<in> set (enumerate n urls)" for i u
  proof -
    from that have "check_endpoint u t (net i u) \<in> set futures"
      unfolding futures_def by force
    from fut [OF this] obtain r where r: "check_endpoint u t (net i u) = Inr r" ..
    with check_endpoint_url [OF r] show ?thesis
      by (simp add: url_of_def)
  qed
  have "map url_of futures = map snd (enumerate n urls)"
    unfolding futures_def map_map by (rule map_cong [OF refl]) (auto simp: each)
  then have "image_mset url_of (mset futures) = mset urls"
    by (metis map_snd_enumerate mset_map)
  moreover have "image_mset url_of (mset (map Inr rs)) = mset (map url rs)"
    by (simp add: multiset.map_comp comp_def url_of_def)
  ultimately show ?thesis
    using assms unfolding futures_def by simp
qed

section \<open>Results about the Checker\<close>

text \<open>
  C5. When the HTTP client signals a hard timeout (the call raises an instance of
  \<^verbatim>\<open>requests.exceptions.Timeout\<close>, of whatever subclass), the Checker returns a result
  for that URL whose outcome is \<open>TIMEOUT\<close> and whose \<open>status\<close> and \<open>time\<close> are both
  absent.
\<close>

theorem check_endpoint_hard_timeout:
  "check_endpoint u timeout (Raised (TimeoutExc n)) =
     Inr \<lparr>url = u, result = ''TIMEOUT'', status = None, time = None\<rparr>"
  by (simp add: check_endpoint_def)

text \<open>
  C6, as the specification has it: whenever the request fails for any reason other
  than a timeout, a malformed URL included, the Checker returns a \<open>DOWN\<close> result.
  The code does not do that for every such failure. For the URL below, whose host
  name has an empty label, \<^verbatim>\<open>requests.get\<close> raises urllib3's \<^verbatim>\<open>LocationParseError\<close>,
  which is a \<^verbatim>\<open>ValueError\<close> and not a \<^verbatim>\<open>RequestException\<close>: neither \<^verbatim>\<open>except\<close> clause
  catches it, and the Checker returns no result.
\<close>

theorem malformed_url_escapes:
  "check_endpoint ''http://a..b.invalid/'' 30 (Raised (OtherExc ''LocationParseError''))
     = Inl (OtherExc ''LocationParseError'')"
  by (simp add: check_endpoint_def)

text \<open>
  C6, amended: whenever the request fails with a request failure other than a timeout
  (the call raises an instance of \<^verbatim>\<open>RequestException\<close> that is not a \<^verbatim>\<open>Timeout\<close>: connection
  refused, DNS or TLS failure, a URL that \<^verbatim>\<open>requests\<close> itself rejects), the Checker returns
  a result whose outcome is the string \<open>DOWN (\<close>, then the name of the exception's class,
  then \<open>)\<close>, and whose \<open>status\<close> and \<open>time\<close> are both absent.
\<close>

theorem check_endpoint_request_failure:
  "check_endpoint u timeout (Raised (RequestExc n)) =
     Inr \<lparr>url = u, result = ''DOWN ('' @ n @ '')'', status = None, time = None\<rparr>"
  by (simp add: check_endpoint_def)

section \<open>Results about the Dispatcher\<close>

lemmas run_defs =
  check_endpoints_def check_endpoint_def read_urls_def strip_def isspace_def startswith_def
  round2_def Let_def ValueError_def
  example_cfg_def example_fs_def example_net_def faulty_net_def

text \<open>
  C1, as the specification has it: every fault met while one URL is checked, also an
  exception that is no request failure, is turned into a \<open>DOWN\<close> result inside the
  Checker, so that the Dispatcher never raises. The code does not do that: when the
  request for one of three URLs raises a \<^verbatim>\<open>ValueError\<close>, \<^verbatim>\<open>check_endpoint\<close> lets it
  through, and \<^verbatim>\<open>check_endpoints\<close> raises it in turn, all three checks having been
  submitted and no result being returned.
\<close>

theorem unexpected_exception_escapes:
  "check_endpoint ''http://bad.example/'' 2 (Raised (OtherExc ''ValueError''))
     = Inl (OtherExc ''ValueError'')
   \<and> check_endpoints example_cfg example_fs faulty_net []
     = ([''http://ok.example/'', ''http://slow.example/'', ''http://bad.example/''],
        Inl (OtherExc ''ValueError''))"
  by (simp add: run_defs)

text \<open>
  C1, amended: every request failure met while one URL is checked (an instance of
  \<^verbatim>\<open>RequestException\<close>, timeouts included) is caught inside the Checker and turned into
  a result for that URL, \<open>TIMEOUT\<close> for a timeout and \<open>DOWN (class name)\<close> otherwise,
  with no status and no time. When the URL file is read, the pool size is positive and
  every request is answered or fails with a request failure, the Dispatcher does not
  raise, and the results it returns are, as a multiset, what the Checker returns for
  each URL on its own.
\<close>

theorem request_failures_isolated:
  "(is_request_exception e \<longrightarrow>
      (\<exists>r. check_endpoint u t (Raised e) = Inr r \<and> url r = u
           \<and> status r = None \<and> time r = None
           \<and> ((\<exists>n. e = TimeoutExc n \<and> result r = ''TIMEOUT'')
              \<or> (\<exists>n. e = RequestExc n \<and> result r = ''DOWN ('' @ n @ '')''))))
   \<and> (fs (URL_FILE cfg) = Lines ls \<and> 1 \<le> MAX_WORKERS cfg
        \<and> list_all (\<lambda>(i, u). handled (net i u)) (enumerate 0 (read_urls ls)) \<longrightarrow>
      (\<exists>rs. snd (check_endpoints cfg fs net sched) = Inr rs
            \<and> mset (map Inr rs)
                = mset (map (\<lambda>(i, u). check_endpoint u (TIMEOUT cfg) (net i u))
                            (enumerate 0 (read_urls ls)))))"
proof (intro conjI impI)
  assume "is_request_exception e"
  then show "\<exists>r. check_endpoint u t (Raised e) = Inr r \<and> url r = u
           \<and> status r = None \<and> time r = None
           \<and> ((\<exists>n. e = TimeoutExc n \<and> result r = ''TIMEOUT'')
              \<or> (\<exists>n. e = RequestExc n \<and> result r = ''DOWN ('' @ n @ '')''))"
    by (cases e) (simp_all add: check_endpoint_def)
next
  assume a: "fs (URL_FILE cfg) = Lines ls \<and> 1 \<le> MAX_WORKERS cfg
        \<and> list_all (\<lambda>(i, u). handled (net i u)) (enumerate 0 (read_urls ls))"
  then have "handled_all": "list_all (\<lambda>(i, u). handled (net i u)) (enumerate 0 (read_urls ls))"
    by simp
  from a show "\<exists>rs. snd (check_endpoints cfg fs net sched) = Inr rs
            \<and> mset (map Inr rs)
                = mset (map (\<lambda>(i, u). check_endpoint u (TIMEOUT cfg) (net i u))
                            (enumerate 0 (read_urls ls)))"
    using collect_all_handled [OF handled_all, of sched "TIMEOUT cfg"]
    by (simp add: check_endpoints_Lines)
qed

theorem request_failures_isolated_witness:
  "is_request_exception (RequestExc ''SSLError'')
   \<and> check_endpoint ''https://tls.example/'' 2 (Raised (RequestExc ''SSLError''))
       = Inr \<lparr>url = ''https://tls.example/'', result = ''DOWN (SSLError)'',
              status = None, time = None\<rparr>
   \<and> example_fs (URL_FILE example_cfg)
       = Lines [''# fleet'', ''http://ok.example/  '', [], ''http://slow.example/'',
                ''  http://bad.example/'']
   \<and> 1 \<le> MAX_WORKERS example_cfg
   \<and> snd (check_endpoints example_cfg example_fs example_net [2, 0])
       = Inr [\<lparr>url = ''http://bad.example/'', result = ''DOWN (ConnectionError)'',
               status = None, time = None\<rparr>,
              \<lparr>url = ''http://ok.example/'', result = ''UP'',
               status = Some 200, time = Some (1 / 10)\<rparr>,
              \<lparr>url = ''http://slow.example/'', result = ''TIMEOUT'',
               status = None, time = None\<rparr>]"
proof -
  let ?ls = "[''# fleet'', ''http://ok.example/  '', [], ''http://slow.example/'',
              ''  http://bad.example/'']"
  have exc: "is_request_exception (RequestExc ''SSLError'')"
    by simp
  have src: "example_fs (URL_FILE example_cfg) = Lines ?ls"
    by (simp add: example_cfg_def example_fs_def)
  have pool: "1 \<le> MAX_WORKERS example_cfg"
    by (simp add: example_cfg_def)
  have net: "list_all (\<lambda>(i, u). handled (example_net i u)) (enumerate 0 (read_urls ?ls))"
    by (simp add: run_defs)
  note inst = request_failures_isolated
    [of "RequestExc ''SSLError''" "''https://tls.example/''" 2
        example_fs example_cfg ?ls example_net "[2, 0]"]
  from inst exc have "\<exists>r. check_endpoint ''https://tls.example/'' 2 (Raised (RequestExc ''SSLError'')) = Inr r
      \<and> url r = ''https://tls.example/'' \<and> status r = None \<and> time r = None
      \<and> result r = ''DOWN (SSLError)''"
    by auto
  then have one: "check_endpoint ''https://tls.example/'' 2 (Raised (RequestExc ''SSLError''))
       = Inr \<lparr>url = ''https://tls.example/'', result = ''DOWN (SSLError)'',
              status = None, time = None\<rparr>"
    by auto
  from inst src pool net
  obtain rs where "snd (check_endpoints example_cfg example_fs example_net [2, 0]) = Inr rs"
    by blast
  then have batch: "snd (check_endpoints example_cfg example_fs example_net [2, 0])
       = Inr [\<lparr>url = ''http://bad.example/'', result = ''DOWN (ConnectionError)'',
               status = None, time = None\<rparr>,
              \<lparr>url = ''http://ok.example/'', result = ''UP'',
               status = Some 200, time = Some (1 / 10)\<rparr>,
              \<lparr>url = ''http://slow.example/'', result = ''TIMEOUT'',
               status = None, time = None\<rparr>]"
    by (simp add: run_defs)
  from exc one src pool batch show ?thesis
    by blast
qed

text \<open>
  C2, as the specification has it: whenever the URL file is there, there is exactly
  one result per URL read from it. The code returns no result at all when one request
  raises an exception that is no request failure: here the file gives three URLs, the
  second and the first complete, and the third makes \<^verbatim>\<open>future.result()\<close> raise.
\<close>

theorem no_results_when_a_check_raises:
  "fst (check_endpoints example_cfg example_fs faulty_net [1])
     = [''http://ok.example/'', ''http://slow.example/'', ''http://bad.example/'']
   \<and> snd (check_endpoints example_cfg example_fs faulty_net [1])
     = Inl (OtherExc ''ValueError'')"
  by (simp add: run_defs)

text \<open>
  C2, amended: for every list of lines of the URL file (duplicate URLs allowed), when
  the pool size is positive and every request is answered or fails with a request
  failure, \<^verbatim>\<open>check_endpoints\<close> submits one check per URL and returns exactly one result
  per URL, and the multiset of the \<open>url\<close> fields of the results is the multiset of the
  URLs read, each unchanged.
\<close>

theorem one_result_per_url:
  assumes "fs (URL_FILE cfg) = Lines ls"
    and "1 \<le> MAX_WORKERS cfg"
    and "list_all (\<lambda>(i, u). handled (net i u)) (enumerate 0 (read_urls ls))"
  shows "\<exists>rs. check_endpoints cfg fs net sched = (read_urls ls, Inr rs)
              \<and> length rs = length (read_urls ls)
              \<and> mset (map url rs) = mset (read_urls ls)"
proof -
  from collect_all_handled [OF assms(3), of sched "TIMEOUT cfg"]
  obtain rs where res: "collect_results
        (as_completed sched
           (map (\<lambda>(i, u). check_endpoint u (TIMEOUT cfg) (net i u))
                (enumerate 0 (read_urls ls)))) [] = Inr rs"
    and rs: "mset (map Inr rs)
       = mset (map (\<lambda>(i, u). check_endpoint u (TIMEOUT cfg) (net i u))
                   (enumerate 0 (read_urls ls)))"
    by blast
  from rs have urls: "mset (map url rs) = mset (read_urls ls)"
    by (rule urls_of_futures)
  then have "length (map url rs) = length (read_urls ls)"
    by (rule mset_eq_length)
  with res urls show ?thesis
    using assms(1,2) by (simp add: check_endpoints_Lines)
qed

theorem one_result_per_url_witness:
  "example_fs (URL_FILE (example_cfg\<lparr>URL_FILE := ''twice.txt''\<rparr>))
     = Lines [''http://ok.example/'', ''http://down.example/'', ''http://ok.example/'']
   \<and> 1 \<le> MAX_WORKERS (example_cfg\<lparr>URL_FILE := ''twice.txt''\<rparr>)
   \<and> map url (projr (snd (check_endpoints (example_cfg\<lparr>URL_FILE := ''twice.txt''\<rparr>)
                              example_fs example_net [1])))
     = [''http://down.example/'', ''http://ok.example/'', ''http://ok.example/'']"
proof -
  let ?cfg = "example_cfg\<lparr>URL_FILE := ''twice.txt''\<rparr>"
  let ?ls = "[''http://ok.example/'', ''http://down.example/'', ''http://ok.example/'']"
  have src: "example_fs (URL_FILE ?cfg) = Lines ?ls"
    by (simp add: example_fs_def)
  have pool: "1 \<le> MAX_WORKERS ?cfg"
    by (simp add: example_cfg_def)
  have net: "list_all (\<lambda>(i, u). handled (example_net i u)) (enumerate 0 (read_urls ?ls))"
    by (simp add: run_defs)
  from one_result_per_url [of example_fs ?cfg ?ls example_net "[1]", OF src pool net]
  obtain rs where "check_endpoints ?cfg example_fs example_net [1] = (read_urls ?ls, Inr rs)"
    by blast
  then have "map url (projr (snd (check_endpoints ?cfg example_fs example_net [1])))
     = [''http://down.example/'', ''http://ok.example/'', ''http://ok.example/'']"
    by (auto simp: run_defs)
  with src pool show ?thesis
    by blast
qed

text \<open>
  C3. In every result that the Checker returns, on whichever branch, and in every
  result of the list that the Dispatcher returns, the synthetic one for a missing URL
  file included, \<open>status\<close> is present exactly when \<open>time\<close> is.
\<close>

theorem status_present_iff_time_present:
  "(check_endpoint u t oc = Inr r \<longrightarrow> (status r \<noteq> None) = (time r \<noteq> None))
   \<and> (snd (check_endpoints cfg fs net sched) = Inr rs \<and> r' \<in> set rs \<longrightarrow>
        (status r' \<noteq> None) = (time r' \<noteq> None))"
proof (intro conjI impI)
  assume "check_endpoint u t oc = Inr r"
  then show "(status r \<noteq> None) = (time r \<noteq> None)"
    by (rule check_endpoint_both_or_neither)
next
  assume a: "snd (check_endpoints cfg fs net sched) = Inr rs \<and> r' \<in> set rs"
  show "(status r' \<noteq> None) = (time r' \<noteq> None)"
  proof (cases "fs (URL_FILE cfg)")
    case Missing
    with a show ?thesis
      by (auto simp: check_endpoints_def)
  next
    case (Unreadable e)
    with a show ?thesis
      by (simp add: check_endpoints_def)
  next
    case (Lines ls)
    define futures where
      "futures = map (\<lambda>(i, u). check_endpoint u (TIMEOUT cfg) (net i u)) (enumerate 0 (read_urls ls))"
    from a Lines have pos: "1 \<le> MAX_WORKERS cfg"
      by (cases "MAX_WORKERS cfg \<le> 0") (simp_all add: check_endpoints_def Let_def)
    from a have "collect_results (as_completed sched futures) [] = Inr rs"
      unfolding futures_def using Lines pos by (simp add: check_endpoints_Lines)
    with collect_results_cases [of "as_completed sched futures" "[]"]
    have "as_completed sched futures = map Inr rs"
      by auto
    with a have "Inr r' \<in> set (as_completed sched futures)"
      by simp
    then have "Inr r' \<in> set futures"
      by (simp only: set_as_completed)
    then obtain i u where "check_endpoint u (TIMEOUT cfg) (net i u) = Inr r'"
      by (auto simp: futures_def)
    then show ?thesis
      by (rule check_endpoint_both_or_neither)
  qed
qed

theorem status_present_iff_time_present_witness:
  "check_endpoint ''http://ok.example/'' 2 (Responded 100 503 (1021 / 10))
     = Inr \<lparr>url = ''http://ok.example/'', result = ''TIMEOUT'', status = Some 503,
            time = Some (21 / 10)\<rparr>
   \<and> snd (check_endpoints (example_cfg\<lparr>URL_FILE := ''gone.txt''\<rparr>) example_fs example_net [])
     = Inr [\<lparr>url = ''N/A'', result = ''ERROR: URL file not found'',
             status = None, time = None\<rparr>]
   \<and> (status \<lparr>url = ''http://ok.example/'', result = ''TIMEOUT'', status = Some 503,
               time = Some (21 / 10)\<rparr> \<noteq> None)
     = (time \<lparr>url = ''http://ok.example/'', result = ''TIMEOUT'', status = Some 503,
              time = Some (21 / 10)\<rparr> \<noteq> None)
   \<and> (status \<lparr>url = ''N/A'', result = ''ERROR: URL file not found'',
               status = None, time = None\<rparr> \<noteq> None)
     = (time \<lparr>url = ''N/A'', result = ''ERROR: URL file not found'',
              status = None, time = None\<rparr> \<noteq> None)"
proof -
  let ?r = "\<lparr>url = ''http://ok.example/'', result = ''TIMEOUT'', status = Some 503,
             time = Some (21 / 10)\<rparr>"
  let ?e = "\<lparr>url = ''N/A'', result = ''ERROR: URL file not found'',
             status = None, time = None :: rat option\<rparr>"
  let ?cfg = "example_cfg\<lparr>URL_FILE := ''gone.txt''\<rparr>"
  have one: "check_endpoint ''http://ok.example/'' 2 (Responded 100 503 (1021 / 10)) = Inr ?r"
    by (simp add: run_defs)
  have batch: "snd (check_endpoints ?cfg example_fs example_net []) = Inr [?e]"
    by (simp add: run_defs)
  have mem: "?e \<in> set [?e]"
    by simp
  note inst = status_present_iff_time_present
    [of "''http://ok.example/''" 2 "Responded 100 503 (1021 / 10)" ?r
        ?cfg example_fs example_net "[]" "[?e]" ?e]
  from inst one have "(status ?r \<noteq> None) = (time ?r \<noteq> None)"
    by blast
  moreover from inst batch mem have "(status ?e \<noteq> None) = (time ?e \<noteq> None)"
    by blast
  ultimately show ?thesis
    using one batch by blast
qed

text \<open>
  C7. When the URL file does not exist, the Dispatcher submits no check and returns
  exactly one result, with \<open>url\<close> \<open>N/A\<close>, outcome \<open>ERROR: URL file not found\<close>, and
  neither status nor time; the network and the pool size play no part.
\<close>

theorem missing_url_file:
  "fs (URL_FILE cfg) = Missing \<Longrightarrow>
   check_endpoints cfg fs net sched =
     ([], Inr [\<lparr>url = ''N/A'', result = ''ERROR: URL file not found'',
                status = None, time = None\<rparr>])"
  by (simp add: check_endpoints_def)

theorem missing_url_file_witness:
  "example_fs (URL_FILE (example_cfg\<lparr>URL_FILE := ''nowhere.txt''\<rparr>)) = Missing
   \<and> check_endpoints (example_cfg\<lparr>URL_FILE := ''nowhere.txt''\<rparr>) example_fs faulty_net [3, 1] =
       ([], Inr [\<lparr>url = ''N/A'', result = ''ERROR: URL file not found'',
                  status = None, time = None\<rparr>])"
proof -
  have gone: "example_fs (URL_FILE (example_cfg\<lparr>URL_FILE := ''nowhere.txt''\<rparr>)) = Missing"
    by (simp add: example_fs_def)
  from gone missing_url_file
    [of example_fs "example_cfg\<lparr>URL_FILE := ''nowhere.txt''\<rparr>" faulty_net "[3, 1]", OF gone]
  show ?thesis
    by (rule conjI)
qed

text \<open>
  C8. When the URL file is read and gives no URL (it is empty, or holds only blank
  lines and comments) and the pool size is at least 1, as the contract of the
  Dispatcher requires, the Dispatcher submits no check and returns the empty list: it
  does not raise and does not return the synthetic error result.
\<close>

theorem empty_url_list:
  "fs (URL_FILE cfg) = Lines ls \<Longrightarrow> read_urls ls = [] \<Longrightarrow> 1 \<le> MAX_WORKERS cfg \<Longrightarrow>
   check_endpoints cfg fs net sched = ([], Inr [])"
  by (simp add: check_endpoints_def)

theorem empty_url_list_witness:
  "example_fs (URL_FILE (example_cfg\<lparr>URL_FILE := ''empty.txt''\<rparr>))
     = Lines [''# nothing to check yet'', ''   '', []]
   \<and> read_urls [''# nothing to check yet'', ''   '', []] = []
   \<and> 1 \<le> MAX_WORKERS (example_cfg\<lparr>URL_FILE := ''empty.txt''\<rparr>)
   \<and> check_endpoints (example_cfg\<lparr>URL_FILE := ''empty.txt''\<rparr>) example_fs faulty_net [] = ([], Inr [])"
proof -
  let ?cfg = "example_cfg\<lparr>URL_FILE := ''empty.txt''\<rparr>"
  let ?ls = "[''# nothing to check yet'', ''   '', []]"
  have src: "example_fs (URL_FILE ?cfg) = Lines ?ls"
    by (simp add: example_fs_def)
  have none: "read_urls ?ls = []"
    by (simp add: read_urls_def strip_def isspace_def startswith_def)
  have pool: "1 \<le> MAX_WORKERS ?cfg"
    by (simp add: example_cfg_def)
  from src none pool empty_url_list [of example_fs ?cfg ?ls faulty_net "[]", OF src none pool]
  show ?thesis
    by blast
qed

section \<open>Rounding to hundredths\<close>

lemma round2_error: "\<bar>round2 x - x\<bar> \<le> 1 / 200"
proof -
  define f where "f = \<lfloor>x * 100\<rfloor>"
  have lo: "of_int f \<le> x * 100" and hi: "x * 100 < of_int f + 1"
    unfolding f_def by linarith+
  show ?thesis
    using lo hi unfolding round2_def Let_def f_def [symmetric]
    by (auto simp: abs_le_iff field_simps)
qed

lemma round2_hundredth: "\<exists>k::int. round2 x = of_int k / 100"
  unfolding round2_def Let_def by blast

lemma round2_of_hundredth: "round2 (of_int k / 100) = of_int k / 100"
  by (simp add: round2_def)

text \<open>
  C4. Whenever a response is received, the Checker returns a result with the URL, the
  status code received, whatever it is, and as \<open>time\<close> the difference of the two clock
  readings rounded to two decimal places (a multiple of 1/100 at most 1/200 away from
  it); the outcome is \<open>UP\<close> when that rounded time is at most the timeout and
  \<open>TIMEOUT\<close> when it is more. A response with status 200 that arrives 0.01 s after
  the timeout gives \<open>TIMEOUT\<close> with status 200 and the time present.
\<close>

theorem response_received:
  "check_endpoint u timeout (Responded start code now) =
     Inr \<lparr>url = u,
           result = (if round2 (now - start) \<le> of_int timeout then ''UP'' else ''TIMEOUT''),
           status = Some code,
           time = Some (round2 (now - start))\<rparr>
   \<and> \<bar>round2 (now - start) - (now - start)\<bar> \<le> 1 / 200
   \<and> (\<exists>k::int. round2 (now - start) = of_int k / 100)
   \<and> check_endpoint u timeout (Responded start 200 (start + (of_int timeout + 1 / 100))) =
       Inr \<lparr>url = u, result = ''TIMEOUT'', status = Some 200,
             time = Some (of_int timeout + 1 / 100)\<rparr>"
proof -
  have "of_int timeout + 1 / 100 = (of_int (timeout * 100 + 1) / 100 :: rat)"
    by simp
  then have "round2 (of_int timeout + 1 / 100) = of_int timeout + 1 / 100"
    by (metis round2_of_hundredth)
  then have "check_endpoint u timeout (Responded start 200 (start + (of_int timeout + 1 / 100))) =
       Inr \<lparr>url = u, result = ''TIMEOUT'', status = Some 200,
             time = Some (of_int timeout + 1 / 100)\<rparr>"
    by (simp add: check_endpoint_def Let_def)
  moreover have "check_endpoint u timeout (Responded start code now) =
     Inr \<lparr>url = u,
           result = (if round2 (now - start) \<le> of_int timeout then ''UP'' else ''TIMEOUT''),
           status = Some code,
           time = Some (round2 (now - start))\<rparr>"
    by (simp add: check_endpoint_def Let_def)
  ultimately show ?thesis
    using round2_error [of "now - start"] round2_hundredth [of "now - start"] by blast
qed

section \<open>Integer literals\<close>

lemma underscore_no_digit: "\<not> is_digit CHR ''_''"
  by (simp add: is_digit_def)

lemma digit_no_space: "is_digit c \<Longrightarrow> \<not> int_space c"
  by (auto simp: is_digit_def int_space_def)

lemma space_no_digit_or_underscore: "int_space c \<Longrightarrow> \<not> digit_or_underscore c"
  by (auto simp: is_digit_def int_space_def digit_or_underscore_def)

lemma no_double_underscore_digit:
  "is_digit a \<Longrightarrow> no_double_underscore (a # r) = no_double_underscore r"
  by (cases r) (auto simp: underscore_no_digit)

lemma no_double_underscore_digits:
  "list_all is_digit g \<Longrightarrow> no_double_underscore (g @ r) = no_double_underscore r"
  by (induction g) (simp_all add: no_double_underscore_digit)

lemma no_double_underscore_sep:
  "r \<noteq> [] \<Longrightarrow> hd r \<noteq> CHR ''_'' \<Longrightarrow> no_double_underscore (CHR ''_'' # r) = no_double_underscore r"
  by (cases r) auto

text \<open>What the joined groups of a literal look like to the scan.\<close>

lemma join_underscore_shape:
  assumes "groups \<noteq> []" and "list_all (\<lambda>g. g \<noteq> [] \<and> list_all is_digit g) groups"
  shows "join_underscore groups \<noteq> []
         \<and> is_digit (hd (join_underscore groups))
         \<and> is_digit (last (join_underscore groups))
         \<and> list_all digit_or_underscore (join_underscore groups)
         \<and> no_double_underscore (join_underscore groups)
         \<and> filter is_digit (join_underscore groups) = concat groups"
  using assms
proof (induction groups rule: join_underscore.induct)
  case 1
  then show ?case by simp
next
  case (2 g)
  then have g: "g \<noteq> []" "list_all is_digit g"
    by simp_all
  then have "is_digit (hd g)" "is_digit (last g)"
    by (simp_all add: list_all_iff)
  moreover from g have "list_all digit_or_underscore g"
    by (simp add: list_all_iff digit_or_underscore_def)
  moreover from g have "no_double_underscore g"
    using no_double_underscore_digits [of g "[]"] by simp
  moreover from g have "filter is_digit g = g"
    by (simp add: list_all_iff)
  ultimately show ?case
    using g by simp
next
  case (3 g h gs)
  define r where "r = join_underscore (h # gs)"
  from "3.prems" have g: "g \<noteq> []" "list_all is_digit g"
    and rest: "list_all (\<lambda>g. g \<noteq> [] \<and> list_all is_digit g) (h # gs)"
    by simp_all
  have "h # gs \<noteq> []"
    by simp
  from "3.IH" [OF this rest]
  have IH: "r \<noteq> []" "is_digit (hd r)" "is_digit (last r)"
    "list_all digit_or_underscore r" "no_double_underscore r"
    "filter is_digit r = concat (h # gs)"
    unfolding r_def by blast+
  have eq: "join_underscore (g # h # gs) = g @ CHR ''_'' # r"
    unfolding r_def by simp
  have "g @ CHR ''_'' # r \<noteq> []"
    by simp
  moreover have "is_digit (hd (g @ CHR ''_'' # r))"
    using g by (simp add: list_all_iff)
  moreover have "is_digit (last (g @ CHR ''_'' # r))"
    using IH(1,3) by simp
  moreover have "list_all digit_or_underscore (g @ CHR ''_'' # r)"
    using g(2) IH(4) by (auto simp: list_all_iff digit_or_underscore_def)
  moreover have "no_double_underscore (g @ CHR ''_'' # r)"
  proof -
    have "hd r \<noteq> CHR ''_''"
      using IH(2) underscore_no_digit by auto
    from no_double_underscore_sep [OF IH(1) this] IH(5)
    have "no_double_underscore (CHR ''_'' # r)"
      by blast
    with no_double_underscore_digits [OF g(2), of "CHR ''_'' # r"] show ?thesis
      by blast
  qed
  moreover have "filter is_digit (g @ CHR ''_'' # r) = concat (g # h # gs)"
  proof -
    from g(2) have "filter is_digit g = g"
      by (simp add: list_all_iff)
    then show ?thesis
      by (simp only: filter_append filter.simps underscore_no_digit if_False IH(6) concat.simps)
  qed
  ultimately show ?case
    unfolding eq by blast
qed

lemma foldl_dec_value:
  "foldl (\<lambda>acc c. acc * 10 + (of_char c - 48)) a ds = a * 10 ^ length ds + dec_value ds"
  by (induction ds arbitrary: a) (simp_all add: algebra_simps)

lemma digits_value_join:
  assumes "groups \<noteq> []" and "list_all (\<lambda>g. g \<noteq> [] \<and> list_all is_digit g) groups"
  shows "digits_value (join_underscore groups) = dec_value (concat groups)"
  using join_underscore_shape [OF assms] by (simp add: digits_value_def foldl_dec_value)

lemma spaces_then: "list_all int_space pre \<Longrightarrow> r = [] \<or> \<not> int_space (hd r) \<Longrightarrow>
    dropWhile int_space (pre @ r) = r"
  by (cases r) (auto simp: list_all_iff dropWhile_append2)

lemma scan_body:
  assumes "list_all digit_or_underscore body" and "list_all int_space post"
  shows "takeWhile digit_or_underscore (body @ post) = body"
    and "dropWhile digit_or_underscore (body @ post) = post"
proof -
  from assms(2) have "takeWhile digit_or_underscore post = []" "dropWhile digit_or_underscore post = post"
    by (cases post; simp add: space_no_digit_or_underscore)+
  with assms(1) show "takeWhile digit_or_underscore (body @ post) = body"
    and "dropWhile digit_or_underscore (body @ post) = post"
    by (simp_all add: list_all_iff takeWhile_append2 dropWhile_append2)
qed

text \<open>Every integer literal is converted to its value.\<close>

lemma py_int_literal:
  assumes "literal_ok m pre sg groups post"
  shows "py_int m (int_literal pre sg groups post) = Inr (literal_value sg groups)"
proof -
  define body where "body = join_underscore groups"
  from assms have pre: "list_all int_space pre" and post: "list_all int_space post"
    and sg: "sg = [] \<or> sg = ''+'' \<or> sg = ''-''"
    and groups: "groups \<noteq> []" "list_all (\<lambda>g. g \<noteq> [] \<and> list_all is_digit g) groups"
    and limit: "m = 0 \<or> length (concat groups) \<le> max 640 m"
    by (simp_all add: literal_ok_def)
  from join_underscore_shape [OF groups]
  have body: "body \<noteq> []" "is_digit (hd body)" "is_digit (last body)"
    "list_all digit_or_underscore body" "no_double_underscore body"
    "filter is_digit body = concat groups"
    unfolding body_def by simp_all
  from body(1,2) obtain d ds where d: "body = d # ds" "is_digit d"
    by (cases body) auto
  have ok: "digits_ok body"
    using body underscore_no_digit by (auto simp: digits_ok_def)
  have few: "\<not> too_many_digits m (length (filter is_digit body))"
    using limit by (auto simp: too_many_digits_def body(6))
  have val: "digits_value body = dec_value (concat groups)"
    unfolding body_def by (rule digits_value_join [OF groups])
  have first: "sg @ body @ post = [] \<or> \<not> int_space (hd (sg @ body @ post))"
    using sg d digit_no_space [OF d(2)] by (auto simp: int_space_def)
  have s1: "dropWhile int_space (int_literal pre sg groups post) = sg @ body @ post"
    unfolding int_literal_def body_def [symmetric] by (rule spaces_then [OF pre first])
  have d_sign: "d \<noteq> CHR ''-''" "d \<noteq> CHR ''+''"
    using d(2) by (auto simp: is_digit_def)
  have scan: "takeWhile digit_or_underscore (body @ post) = body"
    "dropWhile digit_or_underscore (body @ post) = post"
    by (rule scan_body [OF body(4) post])+
  from sg show ?thesis
  proof (elim disjE)
    assume "sg = []"
    then show ?thesis
      unfolding py_int_def s1 Let_def using d d_sign scan ok post few val
      by (simp add: literal_value_def)
  next
    assume "sg = ''+''"
    then show ?thesis
      unfolding py_int_def s1 Let_def using scan ok post few val
      by (simp add: literal_value_def)
  next
    assume "sg = ''-''"
    then show ?thesis
      unfolding py_int_def s1 Let_def using scan ok post few val
      by (simp add: literal_value_def)
  qed
qed

text \<open>Conversely, the scan accepts nothing but integer literals.\<close>

lemma split_groups:
  assumes "list_all digit_or_underscore body" and "body \<noteq> []"
    and "hd body \<noteq> CHR ''_''" and "last body \<noteq> CHR ''_''" and "no_double_underscore body"
  shows "\<exists>groups. groups \<noteq> [] \<and> list_all (\<lambda>g. g \<noteq> [] \<and> list_all is_digit g) groups
           \<and> body = join_underscore groups"
  using assms
proof (induction "length body" arbitrary: body rule: less_induct)
  case less
  define g where "g = takeWhile is_digit body"
  define r where "r = dropWhile is_digit body"
  have body: "body = g @ r"
    by (simp add: g_def r_def)
  have gd: "list_all is_digit g"
    by (auto simp: g_def list_all_iff dest: set_takeWhileD)
  from less.prems(1,2,3) have "is_digit (hd body)"
    by (cases body) (auto simp: digit_or_underscore_def)
  with less.prems(2) have g_ne: "g \<noteq> []"
    by (cases body) (auto simp: g_def)
  show ?case
  proof (cases r)
    case Nil
    with body gd g_ne have "[g] \<noteq> [] \<and> list_all (\<lambda>g. g \<noteq> [] \<and> list_all is_digit g) [g]
        \<and> body = join_underscore [g]"
      by simp
    then show ?thesis
      by blast
  next
    case (Cons c r')
    from Cons have "dropWhile is_digit body \<noteq> []"
      by (simp add: r_def)
    then have "\<not> is_digit (hd (dropWhile is_digit body))"
      by (rule hd_dropWhile)
    then have "\<not> is_digit c"
      using Cons by (simp add: r_def)
    moreover have "digit_or_underscore c"
      using less.prems(1) body Cons by (simp add: list_all_iff)
    ultimately have c: "c = CHR ''_''"
      by (simp add: digit_or_underscore_def)
    have shape: "body = g @ CHR ''_'' # r'"
      using body Cons c by simp
    have r'_ne: "r' \<noteq> []"
      using less.prems(4) shape by auto
    have "no_double_underscore (CHR ''_'' # r')"
      using less.prems(5) no_double_underscore_digits [OF gd, of "CHR ''_'' # r'"]
      unfolding shape by blast
    with r'_ne have r'_hd: "hd r' \<noteq> CHR ''_''" and r'_ndu: "no_double_underscore r'"
      by (cases r'; simp)+
    have r'_last: "last r' \<noteq> CHR ''_''"
      using less.prems(4) r'_ne unfolding shape by simp
    have r'_all: "list_all digit_or_underscore r'"
      using less.prems(1) unfolding shape by (simp add: list_all_iff)
    have "length r' < length body"
      unfolding shape by simp
    from less.hyps [OF this r'_all r'_ne r'_hd r'_last r'_ndu]
    obtain groups where groups: "groups \<noteq> []"
      "list_all (\<lambda>g. g \<noteq> [] \<and> list_all is_digit g) groups" "r' = join_underscore groups"
      by blast
    from groups(1) obtain h hs where hs: "groups = h # hs"
      by (cases groups) auto
    have "body = join_underscore (g # groups)"
      unfolding shape groups(3) hs by simp
    moreover have "list_all (\<lambda>g. g \<noteq> [] \<and> list_all is_digit g) (g # groups)"
      using gd g_ne groups(2) by simp
    ultimately show ?thesis
      by blast
  qed
qed

lemma py_int_Inr_literal:
  assumes "py_int m s = Inr n"
  shows "\<exists>pre sg groups post. literal_ok m pre sg groups post \<and> s = int_literal pre sg groups post"
proof -
  define pre where "pre = takeWhile int_space s"
  define s1 where "s1 = dropWhile int_space s"
  define signed where "signed = (take 1 s1 = ''-'' \<or> take 1 s1 = ''+'')"
  define sg where "sg = (if signed then take 1 s1 else [])"
  define s2 where "s2 = (if signed then drop 1 s1 else s1)"
  define body where "body = takeWhile digit_or_underscore s2"
  define post where "post = dropWhile digit_or_underscore s2"
  from assms have ok: "digits_ok body" and post: "list_all int_space post"
    and few: "\<not> too_many_digits m (length (filter is_digit body))"
    unfolding py_int_def Let_def s1_def [symmetric] signed_def [symmetric]
      s2_def [symmetric] body_def [symmetric] post_def [symmetric]
    by (simp_all split: if_splits)
  have pre: "list_all int_space pre"
    by (auto simp: pre_def list_all_iff dest: set_takeWhileD)
  have sg: "sg = [] \<or> sg = ''+'' \<or> sg = ''-''"
    by (auto simp: sg_def signed_def)
  have all: "list_all digit_or_underscore body"
    by (auto simp: body_def list_all_iff dest: set_takeWhileD)
  from ok have "body \<noteq> []" "hd body \<noteq> CHR ''_''" "last body \<noteq> CHR ''_''" "no_double_underscore body"
    by (simp_all add: digits_ok_def)
  from split_groups [OF all this]
  obtain groups where groups: "groups \<noteq> []"
    "list_all (\<lambda>g. g \<noteq> [] \<and> list_all is_digit g) groups" "body = join_underscore groups"
    by blast
  from join_underscore_shape [OF groups(1,2)] have "filter is_digit body = concat groups"
    by (simp add: groups(3))
  with few have limit: "m = 0 \<or> length (concat groups) \<le> max 640 m"
    by (auto simp: too_many_digits_def)
  have "s = pre @ s1"
    by (simp add: pre_def s1_def)
  also have "s1 = sg @ s2"
    by (simp add: sg_def s2_def)
  also have "s2 = body @ post"
    by (simp add: body_def post_def)
  finally have "s = int_literal pre sg groups post"
    by (simp add: int_literal_def groups(3))
  moreover have "literal_ok m pre sg groups post"
    using pre post sg groups(1,2) limit by (simp add: literal_ok_def)
  ultimately show ?thesis
    by blast
qed

section \<open>Results about the configuration\<close>

lemma py_int_reads_as: "py_int m s = Inr n \<longleftrightarrow> reads_as m (Some s) d n"
proof
  assume conv: "py_int m s = Inr n"
  from py_int_Inr_literal [OF conv] obtain pre sg groups post
    where ok: "literal_ok m pre sg groups post" and s: "s = int_literal pre sg groups post"
    by blast
  from py_int_literal [OF ok] conv have "n = literal_value sg groups"
    by (simp add: s)
  with reads_as.literal [OF ok, of d] show "reads_as m (Some s) d n"
    by (simp add: s)
next
  assume "reads_as m (Some s) d n"
  then show "py_int m s = Inr n"
    by (cases rule: reads_as.cases) (simp add: py_int_literal)
qed

lemma int_getenv_reads_as: "int_getenv m env name d = Inr n \<longleftrightarrow> reads_as m (env name) d n"
proof (cases "env name")
  case None
  then show ?thesis
    by (auto simp: int_getenv_def intro: reads_as.unset elim: reads_as.cases)
next
  case (Some s)
  then show ?thesis
    using py_int_reads_as [of m s n d] by (simp add: int_getenv_def)
qed

lemma py_int_chars:
  assumes "py_int m s = Inr n"
  shows "list_all int_char s"
proof -
  from py_int_Inr_literal [OF assms] obtain pre sg groups post
    where ok: "literal_ok m pre sg groups post" and s: "s = int_literal pre sg groups post"
    by blast
  from ok have groups: "groups \<noteq> []" "list_all (\<lambda>g. g \<noteq> [] \<and> list_all is_digit g) groups"
    by (simp_all add: literal_ok_def)
  from join_underscore_shape [OF groups] have "list_all digit_or_underscore (join_underscore groups)"
    by blast
  then have "list_all int_char (join_underscore groups)"
    by (auto simp: list_all_iff int_char_def digit_or_underscore_def)
  moreover from ok have "list_all int_char pre" "list_all int_char post" "list_all int_char sg"
    by (auto simp: literal_ok_def list_all_iff int_char_def)
  ultimately show ?thesis
    by (simp add: s int_literal_def)
qed

lemma py_int_raises_ValueError: "py_int m s = Inl e \<Longrightarrow> e = ValueError"
  by (simp add: py_int_def Let_def split: if_splits)

lemma int_getenv_raises:
  "env name = Some s \<Longrightarrow> \<not> list_all int_char s \<Longrightarrow> int_getenv m env name d = Inl ValueError"
  using py_int_chars [of m s] py_int_raises_ValueError [of m s]
  by (cases "py_int m s") (auto simp: int_getenv_def)

lemma int_getenv_ValueError: "int_getenv m env name d = Inl e \<Longrightarrow> e = ValueError"
  by (auto simp: int_getenv_def dest: py_int_raises_ValueError split: option.splits)

lemma load_config_cases:
  "load_config m env =
     (case int_getenv m env ''TIMEOUT'' 30 of
        Inl e \<Rightarrow> Inl ValueError
      | Inr t \<Rightarrow>
          (case int_getenv m env ''MAX_WORKERS'' 10 of
             Inl e \<Rightarrow> Inl ValueError
           | Inr w \<Rightarrow>
               Inr \<lparr>TIMEOUT = t,
                    URL_FILE = (case env ''URL_FILE'' of None \<Rightarrow> ''endpoints.txt'' | Some f \<Rightarrow> f),
                    MAX_WORKERS = w\<rparr>))"
  by (auto simp: load_config_def Let_def dest: int_getenv_ValueError split: sum.splits)

text \<open>
  C10. The timeout and the pool size are made integers when the module is loaded, so
  only whole numbers of seconds can be configured. Loading succeeds exactly when each
  of the two settings is either not set, and then reads as its default, 30 seconds and
  10 workers, or set to an integer literal, and then reads as the value of that
  literal. In every other case loading raises \<^verbatim>\<open>ValueError\<close>, and it raises nothing
  else: so for the empty string, a lone sign, digits with a space or two underscores
  between them, and in particular for any setting that holds a character that no
  integer literal has, such as the point of a fraction or a letter.
\<close>

theorem settings_coerced_to_int:
  "(load_config m env = Inr cfg \<longleftrightarrow>
      reads_as m (env ''TIMEOUT'') 30 (TIMEOUT cfg)
      \<and> reads_as m (env ''MAX_WORKERS'') 10 (MAX_WORKERS cfg)
      \<and> URL_FILE cfg = (case env ''URL_FILE'' of None \<Rightarrow> ''endpoints.txt'' | Some f \<Rightarrow> f))
   \<and> (load_config m env = Inl ValueError \<or> (\<exists>c. load_config m env = Inr c))
   \<and> (env ''TIMEOUT'' = None \<and> env ''MAX_WORKERS'' = None \<longrightarrow>
        (\<exists>f. load_config m env = Inr \<lparr>TIMEOUT = 30, URL_FILE = f, MAX_WORKERS = 10\<rparr>))
   \<and> (load_config m env = Inr cfg \<and> env ''TIMEOUT'' = None \<longrightarrow> TIMEOUT cfg = 30)
   \<and> (load_config m env = Inr cfg \<and> env ''MAX_WORKERS'' = None \<longrightarrow> MAX_WORKERS cfg = 10)
   \<and> ((env ''TIMEOUT'' = Some s \<or> env ''MAX_WORKERS'' = Some s) \<and> \<not> list_all int_char s \<longrightarrow>
        load_config m env = Inl ValueError)
   \<and> \<not> int_char CHR ''.''"
proof (intro conjI impI)
  show "load_config m env = Inr cfg \<longleftrightarrow>
      reads_as m (env ''TIMEOUT'') 30 (TIMEOUT cfg)
      \<and> reads_as m (env ''MAX_WORKERS'') 10 (MAX_WORKERS cfg)
      \<and> URL_FILE cfg = (case env ''URL_FILE'' of None \<Rightarrow> ''endpoints.txt'' | Some f \<Rightarrow> f)"
    unfolding int_getenv_reads_as [symmetric] load_config_cases
    by (cases cfg) (auto split: sum.splits)
next
  show "load_config m env = Inl ValueError \<or> (\<exists>c. load_config m env = Inr c)"
    unfolding load_config_cases by (simp split: sum.splits)
next
  assume "env ''TIMEOUT'' = None \<and> env ''MAX_WORKERS'' = None"
  then show "\<exists>f. load_config m env = Inr \<lparr>TIMEOUT = 30, URL_FILE = f, MAX_WORKERS = 10\<rparr>"
    by (simp add: load_config_def int_getenv_def)
next
  assume "load_config m env = Inr cfg \<and> env ''TIMEOUT'' = None"
  then show "TIMEOUT cfg = 30"
    unfolding load_config_cases by (auto simp: int_getenv_def split: sum.splits)
next
  assume "load_config m env = Inr cfg \<and> env ''MAX_WORKERS'' = None"
  then show "MAX_WORKERS cfg = 10"
    unfolding load_config_cases
    by (auto simp: int_getenv_def [of m env "''MAX_WORKERS''"] split: sum.splits)
next
  assume a: "(env ''TIMEOUT'' = Some s \<or> env ''MAX_WORKERS'' = Some s) \<and> \<not> list_all int_char s"
  show "load_config m env = Inl ValueError"
  proof (cases "int_getenv m env ''TIMEOUT'' 30")
    case (Inl e)
    then show ?thesis
      unfolding load_config_cases by simp
  next
    case (Inr t)
    with a int_getenv_raises [of env "''TIMEOUT''" s m 30]
    have "env ''MAX_WORKERS'' = Some s"
      by auto
    with a have "int_getenv m env ''MAX_WORKERS'' 10 = Inl ValueError"
      by (simp add: int_getenv_raises)
    with Inr show ?thesis
      unfolding load_config_cases by simp
  qed
next
  show "\<not> int_char CHR ''.''"
    by (simp add: int_char_def is_digit_def int_space_def)
qed

theorem settings_coerced_to_int_witness:
  "load_config 4300 unset_env
     = Inr \<lparr>TIMEOUT = 30, URL_FILE = ''endpoints.txt'', MAX_WORKERS = 10\<rparr>
   \<and> padded_env ''TIMEOUT'' = Some (int_literal '' '' [] [''1'', ''5''] '' '')
   \<and> padded_env ''MAX_WORKERS'' = Some (int_literal [] ''+'' [''04''] [])
   \<and> load_config 4300 padded_env
     = Inr \<lparr>TIMEOUT = 15, URL_FILE = ''endpoints.txt'', MAX_WORKERS = 4\<rparr>
   \<and> fractional_env ''TIMEOUT'' = Some ''2.5'' \<and> \<not> list_all int_char ''2.5''
   \<and> load_config 4300 fractional_env = Inl ValueError
   \<and> wordy_env ''MAX_WORKERS'' = Some ''abc'' \<and> \<not> list_all int_char ''abc''
   \<and> load_config 4300 wordy_env = Inl ValueError
   \<and> garbled_env ''TIMEOUT'' = Some ''1__2''
   \<and> load_config 4300 garbled_env = Inl ValueError"
proof -
  let ?dflt = "\<lparr>TIMEOUT = 30, URL_FILE = ''endpoints.txt'', MAX_WORKERS = 10\<rparr>"
  let ?set = "\<lparr>TIMEOUT = 15, URL_FILE = ''endpoints.txt'', MAX_WORKERS = 4\<rparr>"
  have unset: "unset_env ''TIMEOUT'' = None \<and> unset_env ''MAX_WORKERS'' = None"
    by (simp add: unset_env_def)
  from settings_coerced_to_int [of 4300 unset_env ?dflt "[]"] unset
  obtain f where "load_config 4300 unset_env = Inr \<lparr>TIMEOUT = 30, URL_FILE = f, MAX_WORKERS = 10\<rparr>"
    by blast
  then have dflt: "load_config 4300 unset_env = Inr ?dflt"
    by (simp add: load_config_def unset_env_def int_getenv_def)
  have t: "padded_env ''TIMEOUT'' = Some (int_literal '' '' [] [''1'', ''5''] '' '')"
    and w: "padded_env ''MAX_WORKERS'' = Some (int_literal [] ''+'' [''04''] [])"
    and u: "padded_env ''URL_FILE'' = None"
    by (simp_all add: padded_env_def int_literal_def)
  have "literal_ok 4300 '' '' [] [''1'', ''5''] '' ''"
    by (simp add: literal_ok_def int_space_def is_digit_def)
  from reads_as.literal [OF this, of 30]
  have rt: "reads_as 4300 (padded_env ''TIMEOUT'') 30 (TIMEOUT ?set)"
    by (simp add: t literal_value_def)
  have "literal_ok 4300 [] ''+'' [''04''] []"
    by (simp add: literal_ok_def int_space_def is_digit_def)
  from reads_as.literal [OF this, of 10]
  have rw: "reads_as 4300 (padded_env ''MAX_WORKERS'') 10 (MAX_WORKERS ?set)"
    by (simp add: w literal_value_def)
  from settings_coerced_to_int [of 4300 padded_env ?set "[]"] rt rw u
  have conv: "load_config 4300 padded_env = Inr ?set"
    by simp
  have frac: "fractional_env ''TIMEOUT'' = Some ''2.5''" "\<not> list_all int_char ''2.5''"
    by (simp_all add: fractional_env_def int_char_def is_digit_def int_space_def)
  have word: "wordy_env ''MAX_WORKERS'' = Some ''abc''" "\<not> list_all int_char ''abc''"
    by (simp_all add: wordy_env_def int_char_def is_digit_def int_space_def)
  from settings_coerced_to_int [of 4300 fractional_env ?dflt "''2.5''"] frac
  have bad1: "load_config 4300 fractional_env = Inl ValueError"
    by blast
  from settings_coerced_to_int [of 4300 wordy_env ?dflt "''abc''"] word
  have bad2: "load_config 4300 wordy_env = Inl ValueError"
    by blast
  have garbled: "garbled_env ''TIMEOUT'' = Some ''1__2''"
    by (simp add: garbled_env_def)
  have "py_int 4300 ''1__2'' = Inl ValueError"
    by (simp add: py_int_def Let_def int_space_def digit_or_underscore_def is_digit_def
        digits_ok_def)
  then have "\<not> reads_as 4300 (garbled_env ''TIMEOUT'') 30 n" for n
    unfolding garbled py_int_reads_as [symmetric] by simp
  with settings_coerced_to_int [of 4300 garbled_env _ "[]"]
  have bad3: "load_config 4300 garbled_env = Inl ValueError"
    by blast
  from dflt t w conv frac bad1 word bad2 garbled bad3 show ?thesis
    by blast
qed

end
